theory Spec2Isabelle
  imports Main "HOL-Library.Word" "HOL-Library.Signed_Division"
begin

unbundle bit_operations_syntax

section \<open>Data model (SDLInputManager.hpp)\<close>

text \<open>
  C++ \<open>int\<close> values (slot indices, event fields) are modelled as \<open>int\<close>; the only
  arithmetic on them is the counter of \<open>FindFirstOpenIndex\<close>, which is bounded by the
  number of registry entries, and the threshold computation of the axis discretizer, which
  is bounded below. The fixed-width fields that are compared bitwise or reinterpreted
  (\<open>uint8_t\<close> hat state, \<open>int16_t\<close> axis samples, \<open>Uint32\<close> ticks and event codes) are
  words. Pointers are handles; \<open>nullptr\<close> is \<open>None\<close>.
\<close>

type_synonym SDL_JoystickID = int
type_synonym handle = nat

record Axis =
  initial :: "16 word"  \<comment> \<open>\<open>int16_t initial\<close>, read with \<open>sint\<close>\<close>
  last' :: int          \<comment> \<open>\<open>int last\<close>\<close>

record Hat =
  state :: "8 word"     \<comment> \<open>\<open>uint8_t state\<close>\<close>

record SDLInputDevice =
  index :: int
  sdl_joystick_number :: int
  is_controller :: bool
  controller :: "handle option"
  joystick :: "handle option"
  instance_id :: SDL_JoystickID
  axes :: "Axis list"
  hats :: "Hat list"
  buttons :: "bool list"

type_synonym devices_t = "(SDL_JoystickID \<times> SDLInputDevice) list"

record DiscreteHatEvent =
  hat_joystick_num :: int
  hat :: int
  hat_direction :: int
  hat_pressed :: bool

record DiscreteAxisEvent =
  axis_joystick_num :: int
  axis :: int
  axis_direction :: int
  axis_pressed :: int

text \<open>
  \<open>std::out_of_range\<close> is what \<open>std::map::at\<close> throws for an absent key. Indexing a
  \<open>std::vector\<close> with \<open>operator[]\<close> past its size is undefined behaviour; the model
  stops there with \<open>UndefinedBehaviour\<close>.
\<close>

datatype error = OutOfRange | UndefinedBehaviour

section \<open>The registry container: \<open>std::map\<close> as a key-ordered association list\<close>

definition map_find :: "'k \<Rightarrow> ('k \<times> 'v) list \<Rightarrow> 'v option" where
  "map_find k m = map_of m k"

definition map_at :: "'k \<Rightarrow> ('k \<times> 'v) list \<Rightarrow> error + 'v" where
  "map_at k m = (case map_find k m of None \<Rightarrow> Inl OutOfRange | Some v \<Rightarrow> Inr v)"

text \<open>\<open>std::map::insert\<close> leaves the map as it is when the key is already present.\<close>

definition map_insert :: "('k::linorder) \<times> 'v \<Rightarrow> ('k \<times> 'v) list \<Rightarrow> ('k \<times> 'v) list" where
  "map_insert kv m = (if fst kv \<in> fst ` set m then m else insort_key fst kv m)"

definition map_erase :: "'k \<Rightarrow> ('k \<times> 'v) list \<Rightarrow> ('k \<times> 'v) list" where
  "map_erase k m = filter (\<lambda>kv. fst kv \<noteq> k) m"

text \<open>Writing through a reference obtained from \<open>at\<close> or \<open>find\<close>.\<close>

definition map_assign :: "'k \<Rightarrow> 'v \<Rightarrow> ('k \<times> 'v) list \<Rightarrow> ('k \<times> 'v) list" where
  "map_assign k v m = map (\<lambda>kv. if fst kv = k then (k, v) else kv) m"

section \<open>The manager\<close>

datatype SDL_Event =
    SDL_JOYAXISMOTION SDL_JoystickID "8 word" "16 word"
  | SDL_JOYHATMOTION SDL_JoystickID "8 word" "8 word"
  | SDL_JOYBUTTONUP SDL_JoystickID
  | SDL_JOYBUTTONDOWN SDL_JoystickID
  | SDL_JOYDEVICEADDED int
  | SDL_JOYDEVICEREMOVED int
  | SDL_QUIT
  | SDL_OTHEREVENT "32 word"

text \<open>
  Calls that leave the manager: to the SDL library, to the Qt signal \<open>event\<close> and to the
  condition variable. They are recorded in order in \<open>calls\<close>. The \<open>printf\<close> lines
  are not recorded.
\<close>

datatype call =
    SDL_Init
  | SDL_WaitEvent
  | SDL_WaitEventTimeout int
  | SDL_GameControllerClose "handle option"
  | SDL_JoystickClose "handle option"
  | SDL_GameControllerRumble "handle option" "16 word" "16 word" "32 word"
  | emit_event SDL_Event int
  | cv_notify_one
  | SDL_Quit

record SDLInputManager =
  devices :: devices_t
  work_event_id :: "32 word"
  rumble_event_id :: "32 word"
  rumble_data :: "16 word \<times> 16 word \<times> 32 word"
  on_thread :: "(devices_t \<Rightarrow> devices_t) option"
  calls :: "call list"

section \<open>Hat discretization (SDLInputManager::DiscretizeHatEvent)\<close>

text \<open>
  The four direction masks are the values of SDL's header \<open>SDL_joystick.h\<close>. No general
  theorem below unfolds them: the results hold for any four masks.
\<close>

definition SDL_HAT_UP :: int where "SDL_HAT_UP = 1"
definition SDL_HAT_RIGHT :: int where "SDL_HAT_RIGHT = 2"
definition SDL_HAT_DOWN :: int where "SDL_HAT_DOWN = 4"
definition SDL_HAT_LEFT :: int where "SDL_HAT_LEFT = 8"

text \<open>
  The range-for over \<open>{ SDL_HAT_UP, SDL_HAT_DOWN, SDL_HAT_LEFT, SDL_HAT_RIGHT }\<close>: the
  result is the mask at which the loop body returns, \<open>None\<close> when the loop runs out.
  \<open>old_state & s\<close> promotes the \<open>uint8_t\<close> to \<open>int\<close>.
\<close>

fun hat_scan :: "int list \<Rightarrow> 8 word \<Rightarrow> 8 word \<Rightarrow> int option" where
  "hat_scan [] old_state new_state = None"
| "hat_scan (s # ss) old_state new_state =
     (if (uint old_state AND s) \<noteq> (uint new_state AND s) then Some s
      else hat_scan ss old_state new_state)"

text \<open>The arguments are \<open>event.jhat.which\<close>, \<open>event.jhat.hat\<close> and \<open>event.jhat.value\<close>.\<close>

definition DiscretizeHatEvent ::
  "SDL_JoystickID \<Rightarrow> 8 word \<Rightarrow> 8 word \<Rightarrow> SDLInputManager
     \<Rightarrow> error + (DiscreteHatEvent option \<times> SDLInputManager)" where
  "DiscretizeHatEvent which h new_state mgr =
     (case map_at which (devices mgr) of
        Inl e \<Rightarrow> Inl e
      | Inr device \<Rightarrow>
          if length (hats device) \<le> unat h then Inl UndefinedBehaviour
          else
            let old_state = state (hats device ! unat h) in
            if old_state = new_state then Inr (None, mgr)
            else
              (case hat_scan [SDL_HAT_UP, SDL_HAT_DOWN, SDL_HAT_LEFT, SDL_HAT_RIGHT]
                      old_state new_state of
                 Some s \<Rightarrow>
                   Inr (Some \<lparr> hat_joystick_num = index device, hat = uint h,
                               hat_direction = s,
                               hat_pressed = ((uint new_state AND s) \<noteq> 0) \<rparr>,
                        mgr\<lparr> devices := map_assign which
                          (device\<lparr> hats := (hats device)
                             [unat h := (hats device ! unat h)\<lparr> state := new_state \<rparr>] \<rparr>)
                          (devices mgr) \<rparr>)
               | None \<Rightarrow> Inr (None, mgr)))"

section \<open>Axis discretization (SDLInputManager::DiscretizeJoyAxisEvent)\<close>

text \<open>
  The lambda \<open>pressed\<close>, with the captured \<open>center\<close> as its first argument. \<open>center\<close>
  is an \<open>int16_t\<close> promoted to \<open>int\<close>; \<open>/\<close> is C++ division, which truncates
  (\<open>sdiv\<close>).
\<close>

definition pressed :: "16 word \<Rightarrow> int \<Rightarrow> int" where
  "pressed center v =
     (if v > sint center + (32767 - sint center) sdiv 3 then 1
      else if v < sint center - (sint center + 32768) sdiv 3 then - 1
      else 0)"

text \<open>
  The threshold rule in the words of the specification, over mathematical integers with
  the rounding-down division of HOL, for comparison with \<open>pressed\<close>.
\<close>

definition spec_pressed :: "int \<Rightarrow> int \<Rightarrow> int" where
  "spec_pressed center v =
     (if v > center + (32767 - center) div 3 then 1
      else if v < center - (center + 32768) div 3 then - 1
      else 0)"

text \<open>
  The arguments are \<open>event.jaxis.which\<close>, \<open>event.jaxis.axis\<close> and
  \<open>event.jaxis.value\<close>. The local \<open>offset\<close> is never read and is left out.
\<close>

definition DiscretizeJoyAxisEvent ::
  "SDL_JoystickID \<Rightarrow> 8 word \<Rightarrow> 16 word \<Rightarrow> SDLInputManager
     \<Rightarrow> error + (DiscreteAxisEvent option \<times> SDLInputManager)" where
  "DiscretizeJoyAxisEvent which a now mgr =
     (case map_at which (devices mgr) of
        Inl e \<Rightarrow> Inl e
      | Inr device \<Rightarrow>
          if length (axes device) \<le> unat a then Inl UndefinedBehaviour
          else
            let then' = last' (axes device ! unat a);
                center = initial (axes device ! unat a);
                was_pressed_then = pressed center then';
                is_pressed_now = pressed center (sint now);
                stored = mgr\<lparr> devices := map_assign which
                           (device\<lparr> axes := (axes device)
                              [unat a := (axes device ! unat a)\<lparr> last' := sint now \<rparr>] \<rparr>)
                           (devices mgr) \<rparr>
            in
              if was_pressed_then = is_pressed_now then Inr (None, stored)
              else
                Inr (Some \<lparr> axis_joystick_num = index device, axis = uint a,
                            axis_direction =
                              (if is_pressed_now \<noteq> 0 then is_pressed_now else was_pressed_then),
                            axis_pressed = (if is_pressed_now \<noteq> 0 then 1 else 0) \<rparr>,
                     stored))"

section \<open>The registry (FindFirstOpenIndex, SDLInputDevice::open, AddDevice, RemoveDevice)\<close>

definition none_of :: "('a \<Rightarrow> bool) \<Rightarrow> 'a list \<Rightarrow> bool" where
  "none_of P xs = (\<not> list_ex P xs)"

text \<open>
  The loop \<open>for (int i = 0;; i++)\<close>, entered with the counter at \<open>i\<close>. The counter
  never passes the number of entries (see \<open>FindFirstOpenIndex_from_bounds\<close>), so the
  \<open>int\<close> does not overflow.
\<close>

function FindFirstOpenIndex_from :: "int \<Rightarrow> devices_t \<Rightarrow> int" where
  "FindFirstOpenIndex_from i devs =
     (if none_of (\<lambda>d. index (snd d) = i) devs then i
      else FindFirstOpenIndex_from (i + 1) devs)"
  by pat_completeness auto
termination
proof (relation "measure (\<lambda>(i, devs). length (filter (\<lambda>d. i \<le> index (snd d)) devs))")
  show "wf (measure (\<lambda>(i, devs :: devices_t). length (filter (\<lambda>d. i \<le> index (snd d)) devs)))"
    by simp
next
  fix i :: int and devs :: devices_t
  assume "\<not> none_of (\<lambda>d. index (snd d) = i) devs"
  then have claimed: "list_ex (\<lambda>d. index (snd d) = i) devs"
    by (simp add: none_of_def)
  have le: "length (filter (\<lambda>d. i + 1 \<le> index (snd d)) xs)
              \<le> length (filter (\<lambda>d. i \<le> index (snd d)) xs)" for xs :: devices_t
    by (induction xs) auto
  from claimed have "length (filter (\<lambda>d. i + 1 \<le> index (snd d)) devs)
                       < length (filter (\<lambda>d. i \<le> index (snd d)) devs)"
  proof (induction devs)
    case Nil
    then show ?case by simp
  next
    case (Cons d devs)
    show ?case
    proof (cases "index (snd d) = i")
      case True
      with le [of devs] show ?thesis by simp
    next
      case False
      with Cons show ?thesis by simp
    qed
  qed
  then show "((i + 1, devs), i, devs)
               \<in> measure (\<lambda>(i, devs). length (filter (\<lambda>d. i \<le> index (snd d)) devs))"
    by simp
qed

declare FindFirstOpenIndex_from.simps [simp del]

definition FindFirstOpenIndex :: "SDLInputManager \<Rightarrow> int" where
  "FindFirstOpenIndex mgr = FindFirstOpenIndex_from 0 (devices mgr)"

text \<open>
  What the SDL library answers for one device index when \<open>SDLInputDevice::open\<close> asks:
  the library is outside the repository, so its answers are a parameter.
\<close>

record SDL_answers =
  SDL_IsGameController :: bool
  SDL_GameControllerOpen :: "handle option"
  SDL_GameControllerGetJoystick :: "handle option"
  SDL_JoystickOpen :: "handle option"
  SDL_JoystickNumAxes :: nat
  SDL_JoystickGetAxisInitialState :: "nat \<Rightarrow> 16 word option"
  SDL_JoystickNumButtons :: nat
  SDL_JoystickNumHats :: nat
  SDL_JoystickInstanceID :: SDL_JoystickID

type_synonym SDL = "int \<Rightarrow> SDL_answers"

text \<open>
  A value-initialised \<open>SDLInputDevice\<close>, as \<open>std::map::operator[]\<close> creates it. The
  local \<open>SDLInputDevice d\<close> of \<open>AddDevice\<close> leaves its \<open>int\<close> fields indeterminate
  instead; every one of them is assigned before it is read.
\<close>

definition SDLInputDevice_init :: SDLInputDevice where
  "SDLInputDevice_init =
     \<lparr> index = 0, sdl_joystick_number = 0, is_controller = False, controller = None,
       joystick = None, instance_id = 0, axes = [], hats = [], buttons = [] \<rparr>"

text \<open>
  \<open>SDLInputDevice::open\<close> on the object \<open>d\<close>: \<open>None\<close> is the return value
  \<open>false\<close>, \<open>Some\<close> carries the object after a return of \<open>true\<close>.
  \<open>SDL_GameControllerGetJoystick\<close> of a null controller is null. An axis whose initial
  state SDL does not report keeps the 0 of \<open>resize\<close>.
\<close>

definition SDLInputDevice_open :: "SDL \<Rightarrow> int \<Rightarrow> SDLInputDevice \<Rightarrow> SDLInputDevice option" where
  "SDLInputDevice_open sdl joystick_num d =
     (let ans = sdl joystick_num;
          is_c = SDL_IsGameController ans;
          c = (if is_c then SDL_GameControllerOpen ans else None);
          j = (if is_c
               then (case c of None \<Rightarrow> None | Some _ \<Rightarrow> SDL_GameControllerGetJoystick ans)
               else SDL_JoystickOpen ans)
      in case j of
           None \<Rightarrow> None
         | Some _ \<Rightarrow>
             Some (d\<lparr> sdl_joystick_number := joystick_num, is_controller := is_c,
                      controller := c, joystick := j,
                      instance_id := SDL_JoystickInstanceID ans,
                      axes := map (\<lambda>i. let v = (case SDL_JoystickGetAxisInitialState ans i of
                                                    None \<Rightarrow> 0 | Some v \<Rightarrow> v)
                                         in \<lparr> initial = v, last' = sint v \<rparr>)
                                   [0 ..< SDL_JoystickNumAxes ans],
                      hats := replicate (SDL_JoystickNumHats ans) \<lparr> state = 0 \<rparr>,
                      buttons := replicate (SDL_JoystickNumButtons ans) False \<rparr>))"

definition log :: "call \<Rightarrow> SDLInputManager \<Rightarrow> SDLInputManager" where
  "log c mgr = mgr\<lparr> calls := calls mgr @ [c] \<rparr>"

definition AddDevice :: "SDL \<Rightarrow> int \<Rightarrow> SDLInputManager \<Rightarrow> SDLInputManager" where
  "AddDevice sdl device_index mgr =
     (case SDLInputDevice_open sdl device_index SDLInputDevice_init of
        None \<Rightarrow> mgr
      | Some d \<Rightarrow>
          let d' = d\<lparr> index := FindFirstOpenIndex mgr \<rparr>
          in mgr\<lparr> devices := map_insert (instance_id d', d') (devices mgr) \<rparr>)"

definition RemoveDevice :: "int \<Rightarrow> SDLInputManager \<Rightarrow> SDLInputManager" where
  "RemoveDevice iid mgr =
     (case map_find iid (devices mgr) of
        None \<Rightarrow> mgr
      | Some d \<Rightarrow>
          (log (if is_controller d then SDL_GameControllerClose (controller d)
                else SDL_JoystickClose (joystick d)) mgr)
            \<lparr> devices := map_erase iid (devices mgr) \<rparr>)"

text \<open>Sequences of registrations and removals, each registration with SDL's answers then.\<close>

datatype registry_op = Attach SDL int | Detach int

fun apply_op :: "SDLInputManager \<Rightarrow> registry_op \<Rightarrow> SDLInputManager" where
  "apply_op mgr (Attach sdl device_index) = AddDevice sdl device_index mgr"
| "apply_op mgr (Detach iid) = RemoveDevice iid mgr"

definition slots :: "SDLInputManager \<Rightarrow> int list" where
  "slots mgr = map (\<lambda>d. index (snd d)) (devices mgr)"

section \<open>The worker loop (SDLInputManager::run, rumble)\<close>

text \<open>
  \<open>std::map::operator[]\<close>: an absent key is inserted with a value-initialised device
  before the reference is returned.
\<close>

definition map_subscript :: "SDL_JoystickID \<Rightarrow> devices_t \<Rightarrow> devices_t \<times> SDLInputDevice" where
  "map_subscript k m =
     (case map_find k m of
        Some d \<Rightarrow> (m, d)
      | None \<Rightarrow> (map_insert (k, SDLInputDevice_init) m, SDLInputDevice_init))"

text \<open>
  The locals of \<open>run\<close> together with the manager object. \<open>rumble_end\<close> is a
  \<open>std::optional<int>\<close> that holds a \<open>Uint32\<close> tick count converted to \<open>int\<close>:
  the 32 bits are kept and read as signed where the code does.
\<close>

record frame =
  this :: SDLInputManager
  l_run :: bool
  l_e :: SDL_Event
  l_rumble_end :: "32 word option"

text \<open>
  What one iteration of the loop gets from outside: the value of \<open>SDL_GetTicks()\<close>
  when the wait is set up, the outcome of the wait (\<open>None\<close> when \<open>SDL_WaitEventTimeout\<close>
  or \<open>SDL_WaitEvent\<close> returns 0, which leaves \<open>e\<close> as it was), the value of
  \<open>SDL_GetTicks()\<close> in the rumble branch, and SDL's answers to \<open>open\<close>.
\<close>

record wait_input =
  ticks_wait :: "32 word"
  received :: "SDL_Event option"
  ticks_rumble :: "32 word"
  sdl_answers :: SDL

text \<open>
  \<open>for (const auto [id, dev] : devices) SDL_GameControllerRumble(dev.controller, ...)\<close>
\<close>

definition rumble_all :: "16 word \<Rightarrow> 16 word \<Rightarrow> 32 word \<Rightarrow> SDLInputManager \<Rightarrow> SDLInputManager" where
  "rumble_all low_freq high_freq duration_ms mgr =
     mgr\<lparr> calls := calls mgr
            @ map (\<lambda>kv. SDL_GameControllerRumble (controller (snd kv)) low_freq high_freq
                          duration_ms)
                  (devices mgr) \<rparr>"

text \<open>The first half of the loop body: the wait.\<close>

definition wait_step :: "wait_input \<Rightarrow> frame \<Rightarrow> frame" where
  "wait_step inp f =
     (case l_rumble_end f of
        Some rumble_end \<Rightarrow>
          let f1 = f\<lparr> this := log (SDL_WaitEventTimeout
                                      (max (sint (rumble_end - ticks_wait inp)) 0)) (this f) \<rparr>
          in (case received inp of
                None \<Rightarrow> f1\<lparr> l_rumble_end := None, this := rumble_all 0 0 0 (this f1) \<rparr>
              | Some ev \<Rightarrow> f1\<lparr> l_e := ev \<rparr>)
      | None \<Rightarrow>
          let f1 = f\<lparr> this := log SDL_WaitEvent (this f) \<rparr>
          in (case received inp of
                None \<Rightarrow> f1
              | Some ev \<Rightarrow> f1\<lparr> l_e := ev \<rparr>))"

text \<open>The second half: \<open>switch (e.type)\<close>.\<close>

definition emit :: "SDL_Event \<Rightarrow> int \<Rightarrow> frame \<Rightarrow> frame" where
  "emit ev n f = f\<lparr> this := log (emit_event ev n) (this f) \<rparr>"

fun dispatch :: "wait_input \<Rightarrow> SDL_Event \<Rightarrow> frame \<Rightarrow> frame" where
  "dispatch inp (SDL_JOYAXISMOTION which a v) f = emit (SDL_JOYAXISMOTION which a v) 0 f"
| "dispatch inp (SDL_JOYHATMOTION which h v) f = emit (SDL_JOYHATMOTION which h v) 0 f"
| "dispatch inp (SDL_JOYBUTTONUP which) f =
     (case map_subscript which (devices (this f)) of
        (devs, d) \<Rightarrow> emit (SDL_JOYBUTTONUP which) (index d)
                        (f\<lparr> this := (this f)\<lparr> devices := devs \<rparr> \<rparr>))"
| "dispatch inp (SDL_JOYBUTTONDOWN which) f =
     (case map_subscript which (devices (this f)) of
        (devs, d) \<Rightarrow> emit (SDL_JOYBUTTONDOWN which) (index d)
                        (f\<lparr> this := (this f)\<lparr> devices := devs \<rparr> \<rparr>))"
| "dispatch inp (SDL_JOYDEVICEADDED which) f =
     emit (SDL_JOYDEVICEADDED which) 0
       (f\<lparr> this := AddDevice (sdl_answers inp) which (this f) \<rparr>)"
| "dispatch inp (SDL_JOYDEVICEREMOVED which) f =
     emit (SDL_JOYDEVICEREMOVED which) 0 (f\<lparr> this := RemoveDevice which (this f) \<rparr>)"
| "dispatch inp SDL_QUIT f = f\<lparr> l_run := False \<rparr>"
| "dispatch inp (SDL_OTHEREVENT t) f =
     (if t = work_event_id (this f) then
        f\<lparr> this := log cv_notify_one
                     (case on_thread (this f) of
                        None \<Rightarrow> this f
                      | Some g \<Rightarrow> (this f)\<lparr> devices := g (devices (this f)) \<rparr>) \<rparr>
      else if t = rumble_event_id (this f) then
        (case rumble_data (this f) of
           (low_freq, high_freq, duration_ms) \<Rightarrow>
             f\<lparr> l_rumble_end := Some (ticks_rumble inp + duration_ms),
                this := rumble_all low_freq high_freq duration_ms (this f) \<rparr>)
      else f)"

definition run_iteration :: "wait_input \<Rightarrow> frame \<Rightarrow> frame" where
  "run_iteration inp f = (let f1 = wait_step inp f in dispatch inp (l_e f1) f1)"

text \<open>
  \<open>while (run)\<close> over the outcomes of the successive waits. When the outcomes run out
  with \<open>run\<close> still set, the worker is blocked in its wait and the frame is returned as
  it stands.
\<close>

fun run_loop :: "wait_input list \<Rightarrow> frame \<Rightarrow> frame" where
  "run_loop [] f = f"
| "run_loop (inp # inps) f = (if l_run f then run_loop inps (run_iteration inp f) else f)"

definition run_entry :: "SDLInputManager \<Rightarrow> frame" where
  "run_entry mgr =
     \<lparr> this = log SDL_Init mgr, l_run = True, l_e = SDL_OTHEREVENT 0, l_rumble_end = None \<rparr>"

definition run :: "wait_input list \<Rightarrow> SDLInputManager \<Rightarrow> frame" where
  "run inps mgr =
     (let f = run_loop inps (run_entry mgr)
      in if l_run f then f else f\<lparr> this := log SDL_Quit (this f) \<rparr>)"

text \<open>\<open>SDLInputManager::rumble\<close>, up to the event it pushes on SDL's queue.\<close>

definition rumble :: "16 word \<Rightarrow> 16 word \<Rightarrow> 32 word \<Rightarrow> SDLInputManager \<Rightarrow> SDLInputManager" where
  "rumble low_freq high_freq duration_ms mgr =
     mgr\<lparr> rumble_data := (low_freq, high_freq, duration_ms) \<rparr>"

section \<open>Example registries\<close>

definition pad :: SDLInputDevice where
  "pad = \<lparr> index = 0, sdl_joystick_number = 0, is_controller = True, controller = Some 1,
           joystick = Some 2, instance_id = 7,
           axes = [\<lparr> initial = 0, last' = 0 \<rparr>], hats = [\<lparr> state = 1 \<rparr>],
           buttons = [False, False] \<rparr>"

definition no_devices :: SDLInputManager where
  "no_devices = \<lparr> devices = [], work_event_id = 0x8000, rumble_event_id = 0x8001,
                  rumble_data = (0, 0, 0), on_thread = None, calls = [] \<rparr>"

definition one_pad :: SDLInputManager where
  "one_pad = no_devices\<lparr> devices := [(7, pad)] \<rparr>"

text \<open>SDL's answers for a plain joystick with 4 axes, 1 hat and 2 buttons, and for a
  device index at which nothing can be opened.\<close>

definition stick :: "handle \<Rightarrow> SDL_JoystickID \<Rightarrow> SDL_answers" where
  "stick h iid =
     \<lparr> SDL_IsGameController = False, SDL_GameControllerOpen = None,
       SDL_GameControllerGetJoystick = None, SDL_JoystickOpen = Some h,
       SDL_JoystickNumAxes = 4, SDL_JoystickGetAxisInitialState = (\<lambda>i. Some 0),
       SDL_JoystickNumButtons = 2, SDL_JoystickNumHats = 1, SDL_JoystickInstanceID = iid \<rparr>"

definition unplugged :: SDL_answers where
  "unplugged =
     \<lparr> SDL_IsGameController = False, SDL_GameControllerOpen = None,
       SDL_GameControllerGetJoystick = None, SDL_JoystickOpen = None,
       SDL_JoystickNumAxes = 0, SDL_JoystickGetAxisInitialState = (\<lambda>i. None),
       SDL_JoystickNumButtons = 0, SDL_JoystickNumHats = 0, SDL_JoystickInstanceID = 0 \<rparr>"

text \<open>The hot-plug scenario: attach A, attach B, detach A, attach C.\<close>

definition after_A :: SDLInputManager where
  "after_A = AddDevice (\<lambda>i. stick 1 10) 0 no_devices"

definition after_B :: SDLInputManager where
  "after_B = AddDevice (\<lambda>i. stick 2 11) 1 after_A"

definition after_detach_A :: SDLInputManager where
  "after_detach_A = RemoveDevice 10 after_B"

definition after_C :: SDLInputManager where
  "after_C = AddDevice (\<lambda>i. stick 3 12) 0 after_detach_A"

text \<open>The slot of an instance id, \<open>None\<close> when the registry has no such device.\<close>

definition slot_of :: "SDL_JoystickID \<Rightarrow> SDLInputManager \<Rightarrow> int option" where
  "slot_of iid mgr = map_option index (map_find iid (devices mgr))"

text \<open>
  One outcome of the wait: the ticks at the wait, what it delivered, the ticks at a rumble
  request; nothing can be opened meanwhile.
\<close>

definition wait_result :: "32 word \<Rightarrow> SDL_Event option \<Rightarrow> 32 word \<Rightarrow> wait_input" where
  "wait_result t1 r t2 =
     \<lparr> ticks_wait = t1, received = r, ticks_rumble = t2, sdl_answers = (\<lambda>i. unplugged) \<rparr>"

text \<open>The registry with one controller, after \<open>rumble(100, 200, 50)\<close> was called.\<close>

definition rumbling_pad :: SDLInputManager where
  "rumbling_pad = rumble 100 200 50 one_pad"

text \<open>The wait call that an iteration entered with frame \<open>f\<close> makes.\<close>

definition wait_call :: "wait_input \<Rightarrow> frame \<Rightarrow> call" where
  "wait_call inp f =
     (case l_rumble_end f of
        None \<Rightarrow> SDL_WaitEvent
      | Some rumble_end \<Rightarrow> SDL_WaitEventTimeout (max (sint (rumble_end - ticks_wait inp)) 0))"

section \<open>Hat discretization: results\<close>

lemma map_find_assign:
  "map_find k m = Some v \<Longrightarrow> map_find k (map_assign k v' m) = Some v'"
  unfolding map_find_def map_assign_def
  by (induction m) (auto split: if_splits)

lemma find_holds: "find P xs = Some x \<Longrightarrow> P x"
  by (induction xs) (auto split: if_splits)

lemma hat_scan_find:
  "hat_scan ss old new = find (\<lambda>s. (uint old AND s) \<noteq> (uint new AND s)) ss"
  by (induction ss) auto

lemma hat_scan_None:
  "list_all (\<lambda>s. (uint old AND s) = (uint new AND s)) ss \<Longrightarrow> hat_scan ss old new = None"
  by (induction ss) auto

lemma one_pad_find: "map_find 7 (devices one_pad) = Some pad"
  by (simp add: one_pad_def no_devices_def map_find_def)

lemma pad_hat_0:
  "unat (0 :: 8 word) < length (hats pad)" "(1 :: 8 word) = state (hats pad ! unat (0 :: 8 word))"
  by (simp_all add: pad_def)

text \<open>
  C1. For a known device and a hat it has, with stored bits \<open>old_bits\<close>: a sample equal
  to the stored bits gives no event and leaves the manager as it is. Otherwise, when \<open>s\<close>
  is the first mask in the order Up, Down, Left, Right at which the stored bits and the
  sample differ, the call returns exactly the one event with direction \<open>s\<close> and
  \<open>pressed\<close> telling whether the sample has that bit, and the stored bits of that hat are
  the sample afterwards. The result type holds at most one event, whatever other bits
  changed.
\<close>

theorem DiscretizeHatEvent_first_differing_direction:
  assumes dev: "map_find which (devices mgr) = Some device"
    and rng: "unat h < length (hats device)"
    and old: "old_bits = state (hats device ! unat h)"
  shows "(old_bits = new_bits \<longrightarrow> DiscretizeHatEvent which h new_bits mgr = Inr (None, mgr))
       \<and> (find (\<lambda>s. (uint old_bits AND s) \<noteq> (uint new_bits AND s))
               [SDL_HAT_UP, SDL_HAT_DOWN, SDL_HAT_LEFT, SDL_HAT_RIGHT] = Some s
           \<longrightarrow> (\<exists>mgr'. DiscretizeHatEvent which h new_bits mgr =
                   Inr (Some \<lparr> hat_joystick_num = index device, hat = uint h, hat_direction = s,
                               hat_pressed = ((uint new_bits AND s) \<noteq> 0) \<rparr>, mgr')
                 \<and> (\<exists>device'. map_find which (devices mgr') = Some device'
                       \<and> unat h < length (hats device')
                       \<and> state (hats device' ! unat h) = new_bits)))"
proof (intro conjI impI)
  assume "old_bits = new_bits"
  with dev rng old show "DiscretizeHatEvent which h new_bits mgr = Inr (None, mgr)"
    by (simp add: DiscretizeHatEvent_def map_at_def)
next
  let ?dirs = "[SDL_HAT_UP, SDL_HAT_DOWN, SDL_HAT_LEFT, SDL_HAT_RIGHT]"
  assume f: "find (\<lambda>s. (uint old_bits AND s) \<noteq> (uint new_bits AND s)) ?dirs = Some s"
  then have sc: "hat_scan ?dirs old_bits new_bits = Some s"
    by (simp only: hat_scan_find)
  from f have "(uint old_bits AND s) \<noteq> (uint new_bits AND s)"
    by (rule find_holds)
  then have ne: "old_bits \<noteq> new_bits" by auto
  let ?device' = "device\<lparr> hats := (hats device)
                             [unat h := (hats device ! unat h)\<lparr> state := new_bits \<rparr>] \<rparr>"
  let ?mgr' = "mgr\<lparr> devices := map_assign which ?device' (devices mgr) \<rparr>"
  have r: "DiscretizeHatEvent which h new_bits mgr =
       Inr (Some \<lparr> hat_joystick_num = index device, hat = uint h, hat_direction = s,
                               hat_pressed = ((uint new_bits AND s) \<noteq> 0) \<rparr>, ?mgr')"
    using dev rng old ne sc
    by (simp add: DiscretizeHatEvent_def map_at_def Let_def del: hat_scan.simps)
  have l: "map_find which (devices ?mgr') = Some ?device'"
    using dev by (simp add: map_find_assign)
  have s: "unat h < length (hats ?device') \<and> state (hats ?device' ! unat h) = new_bits"
    using rng by simp
  from r l s show "\<exists>mgr'. DiscretizeHatEvent which h new_bits mgr =
                   Inr (Some \<lparr> hat_joystick_num = index device, hat = uint h, hat_direction = s,
                               hat_pressed = ((uint new_bits AND s) \<noteq> 0) \<rparr>, mgr')
                 \<and> (\<exists>device'. map_find which (devices mgr') = Some device'
                       \<and> unat h < length (hats device')
                       \<and> state (hats device' ! unat h) = new_bits)"
    by blast
qed

text \<open>
  The stored bits are Up. The same sample again gives nothing; the sample Right+Down
  changes three direction bits and gives the single event "Up released".
\<close>

theorem DiscretizeHatEvent_first_differing_direction_witness:
  "DiscretizeHatEvent 7 0 1 one_pad = Inr (None, one_pad)
   \<and> (\<exists>mgr'. DiscretizeHatEvent 7 0 6 one_pad =
          Inr (Some \<lparr> hat_joystick_num = 0, hat = 0, hat_direction = SDL_HAT_UP,
                      hat_pressed = False \<rparr>, mgr')
        \<and> (\<exists>device'. map_find 7 (devices mgr') = Some device'
               \<and> unat (0 :: 8 word) < length (hats device')
               \<and> state (hats device' ! unat (0 :: 8 word)) = 6))"
proof -
  have up_first: "find (\<lambda>s. (uint (1::8 word) AND s) \<noteq> (uint (6::8 word) AND s))
               [SDL_HAT_UP, SDL_HAT_DOWN, SDL_HAT_LEFT, SDL_HAT_RIGHT] = Some SDL_HAT_UP"
    by (simp add: SDL_HAT_UP_def)
  have c: "index pad = 0" "uint (0 :: 8 word) = 0"
    "((uint (6::8 word) AND SDL_HAT_UP) \<noteq> 0) = False"
    by (simp_all add: pad_def SDL_HAT_UP_def)
  have w1: "DiscretizeHatEvent 7 0 1 one_pad = Inr (None, one_pad)"
    using DiscretizeHatEvent_first_differing_direction
            [OF one_pad_find pad_hat_0, of 1 SDL_HAT_UP] by simp
  have w2: "\<exists>mgr'. DiscretizeHatEvent 7 0 6 one_pad =
                   Inr (Some \<lparr> hat_joystick_num = index pad, hat = uint (0 :: 8 word),
                               hat_direction = SDL_HAT_UP,
                               hat_pressed = ((uint (6 :: 8 word) AND SDL_HAT_UP) \<noteq> 0) \<rparr>, mgr')
                 \<and> (\<exists>device'. map_find 7 (devices mgr') = Some device'
                       \<and> unat (0 :: 8 word) < length (hats device')
                       \<and> state (hats device' ! unat (0 :: 8 word)) = 6)"
    using DiscretizeHatEvent_first_differing_direction
            [OF one_pad_find pad_hat_0, of 6 SDL_HAT_UP, THEN conjunct2] up_first
    by (rule mp)
  from w1 w2 show ?thesis
    by (simp only: c)
qed

text \<open>
  C9. For a known device and a hat it has: when the sample differs from the stored bits
  but agrees with them at each of the four direction masks, the call returns no event and
  leaves the manager, and so the stored bits, as they were.
\<close>

theorem DiscretizeHatEvent_other_bits_only:
  assumes dev: "map_find which (devices mgr) = Some device"
    and rng: "unat h < length (hats device)"
    and old: "old_bits = state (hats device ! unat h)"
    and ne: "old_bits \<noteq> new_bits"
    and same: "list_all (\<lambda>s. (uint old_bits AND s) = (uint new_bits AND s))
                 [SDL_HAT_UP, SDL_HAT_DOWN, SDL_HAT_LEFT, SDL_HAT_RIGHT]"
  shows "DiscretizeHatEvent which h new_bits mgr = Inr (None, mgr)"
  using dev rng old ne hat_scan_None [OF same]
  by (simp add: DiscretizeHatEvent_def map_at_def Let_def del: hat_scan.simps)

theorem DiscretizeHatEvent_other_bits_only_witness:
  "(1 :: 8 word) \<noteq> 0x11 \<and> DiscretizeHatEvent 7 0 0x11 one_pad = Inr (None, one_pad)"
proof -
  have ne: "(1 :: 8 word) \<noteq> 0x11" by simp
  have same: "list_all (\<lambda>s. (uint (1 :: 8 word) AND s) = (uint (0x11 :: 8 word) AND s))
                 [SDL_HAT_UP, SDL_HAT_DOWN, SDL_HAT_LEFT, SDL_HAT_RIGHT]"
    by (simp add: SDL_HAT_UP_def SDL_HAT_DOWN_def SDL_HAT_LEFT_def SDL_HAT_RIGHT_def)
  from DiscretizeHatEvent_other_bits_only [OF one_pad_find pad_hat_0 ne same] ne
  show ?thesis by simp
qed

section \<open>Axis discretization: results\<close>

lemma sint16_range: "- 32768 \<le> sint (c :: 16 word) \<and> sint c \<le> 32767"
  using sint_ge [of c] sint_lt [of c] by simp

text \<open>
  The code's thresholds, computed with truncating division, are those of the
  specification's formula: both numerators are non-negative for a 16-bit centre.
\<close>

lemma pressed_spec: "pressed center v = spec_pressed (sint center) v"
proof -
  have a: "0 \<le> 32767 - sint center" and b: "0 \<le> sint center + 32768"
    using sint16_range [of center] by simp_all
  have "(32767 - sint center) sdiv 3 = (32767 - sint center) div 3"
    using a by (simp add: signed_divide_int_def sgn_if)
  moreover have "(sint center + 32768) sdiv 3 = (sint center + 32768) div 3"
    using b by (simp add: signed_divide_int_def sgn_if)
  ultimately show ?thesis by (simp add: pressed_def spec_pressed_def)
qed

text \<open>The thresholds stay within a 32-bit \<open>int\<close>.\<close>

lemma pressed_no_overflow:
  "- 2147483648 \<le> sint (center :: 16 word) + (32767 - sint center) sdiv 3
   \<and> sint center + (32767 - sint center) sdiv 3 < 2147483648
   \<and> - 2147483648 \<le> sint center - (sint center + 32768) sdiv 3
   \<and> sint center - (sint center + 32768) sdiv 3 < 2147483648"
proof -
  have a: "0 \<le> 32767 - sint center" and b: "0 \<le> sint center + 32768"
    using sint16_range [of center] by simp_all
  have e1: "(32767 - sint center) sdiv 3 = (32767 - sint center) div 3"
    using a by (simp add: signed_divide_int_def sgn_if)
  have e2: "(sint center + 32768) sdiv 3 = (sint center + 32768) div 3"
    using b by (simp add: signed_divide_int_def sgn_if)
  have q: "3 * (x div 3) \<le> x \<and> x < 3 * (x div 3) + 3" for x :: int
  proof -
    have "3 * (x div 3) + x mod 3 = x" by simp
    moreover have "0 \<le> x mod 3" "x mod 3 < 3" by simp_all
    ultimately show ?thesis by linarith
  qed
  show ?thesis unfolding e1 e2
    using sint16_range [of center] q [of "32767 - sint center"] q [of "sint center + 32768"]
    by linarith
qed

text \<open>
  C2. For a known device and an axis it has, with rest sample \<open>center\<close> and stored
  sample \<open>lst\<close>, and with \<open>spec_pressed\<close> the threshold rule as the specification
  words it: when the stored sample and the new sample \<open>now\<close> are in the same zone, no
  event is returned; when they are not, exactly the event with direction
  \<open>is \<noteq> 0 ? is : was\<close> and \<open>pressed = (is \<noteq> 0)\<close> is returned. In both cases the
  manager returned has \<open>now\<close> as the stored sample of that axis and is otherwise as
  before.
\<close>

theorem DiscretizeJoyAxisEvent_edge_events:
  assumes dev: "map_find which (devices mgr) = Some device"
    and rng: "unat a < length (axes device)"
    and cen: "center = sint (initial (axes device ! unat a))"
    and lst: "lst = last' (axes device ! unat a)"
    and was: "was = spec_pressed center lst"
    and is': "is = spec_pressed center (sint now)"
    and st: "stored = mgr\<lparr> devices := map_assign which
                           (device\<lparr> axes := (axes device)
                              [unat a := (axes device ! unat a)\<lparr> last' := sint now \<rparr>] \<rparr>)
                           (devices mgr) \<rparr>"
  shows "(was = is \<longrightarrow> DiscretizeJoyAxisEvent which a now mgr = Inr (None, stored))
       \<and> (was \<noteq> is \<longrightarrow> DiscretizeJoyAxisEvent which a now mgr =
             Inr (Some \<lparr> axis_joystick_num = index device, axis = uint a,
                         axis_direction = (if is \<noteq> 0 then is else was),
                         axis_pressed = (if is \<noteq> 0 then 1 else 0) \<rparr>, stored))
       \<and> (\<exists>device'. map_find which (devices stored) = Some device'
             \<and> unat a < length (axes device')
             \<and> last' (axes device' ! unat a) = sint now)"
proof -
  have l: "map_find which (devices stored) = Some (device\<lparr> axes := (axes device)
                              [unat a := (axes device ! unat a)\<lparr> last' := sint now \<rparr>] \<rparr>)"
    using dev by (simp add: st map_find_assign)
  have r: "DiscretizeJoyAxisEvent which a now mgr =
      (if was = is then Inr (None, stored)
       else Inr (Some \<lparr> axis_joystick_num = index device, axis = uint a,
                         axis_direction = (if is \<noteq> 0 then is else was),
                         axis_pressed = (if is \<noteq> 0 then 1 else 0) \<rparr>, stored))"
    using dev rng
    by (simp add: DiscretizeJoyAxisEvent_def map_at_def Let_def pressed_spec cen lst was is' st)
  from l r rng show ?thesis by auto
qed


lemma pad_axis_0: "unat (0 :: 8 word) < length (axes pad)"
  by (simp add: pad_def)

text \<open>
  The axis rests at 0 with centre 0. The sample 20000 enters the positive zone: one
  event, direction 1, pressed. The sample 100 stays neutral: no event, \<open>last\<close> stored.
\<close>

theorem DiscretizeJoyAxisEvent_edge_events_witness:
  "DiscretizeJoyAxisEvent 7 0 20000 one_pad =
     Inr (Some \<lparr> axis_joystick_num = 0, axis = 0, axis_direction = 1, axis_pressed = 1 \<rparr>,
          one_pad\<lparr> devices := [(7, pad\<lparr> axes := [\<lparr> initial = 0, last' = 20000 \<rparr>] \<rparr>)] \<rparr>)
   \<and> DiscretizeJoyAxisEvent 7 0 100 one_pad =
     Inr (None, one_pad\<lparr> devices := [(7, pad\<lparr> axes := [\<lparr> initial = 0, last' = 100 \<rparr>] \<rparr>)] \<rparr>)"
proof -
  have v: "spec_pressed (sint (initial (axes pad ! unat (0 :: 8 word))))
             (last' (axes pad ! unat (0 :: 8 word))) = 0"
    "spec_pressed (sint (initial (axes pad ! unat (0 :: 8 word)))) (sint (20000 :: 16 word)) = 1"
    "spec_pressed (sint (initial (axes pad ! unat (0 :: 8 word)))) (sint (100 :: 16 word)) = 0"
    by (simp_all add: pad_def spec_pressed_def)
  have d: "devices one_pad = [(7, pad)]"
    by (simp add: one_pad_def)
  have u: "(axes pad) [unat (0 :: 8 word) := (axes pad ! unat (0 :: 8 word))\<lparr> last' := sint (20000 :: 16 word) \<rparr>]
            = [\<lparr> initial = 0, last' = 20000 \<rparr>]"
     "(axes pad) [unat (0 :: 8 word) := (axes pad ! unat (0 :: 8 word))\<lparr> last' := sint (100 :: 16 word) \<rparr>]
            = [\<lparr> initial = 0, last' = 100 \<rparr>]"
     "index pad = 0"
    by (simp_all add: pad_def)
  from DiscretizeJoyAxisEvent_edge_events [OF one_pad_find pad_axis_0 refl refl refl refl refl, of 20000]
       DiscretizeJoyAxisEvent_edge_events [OF one_pad_find pad_axis_0 refl refl refl refl refl, of 100]
  show ?thesis
    unfolding v d u by (simp add: map_assign_def)
qed

section \<open>The registry: results\<close>

lemma claimed_shrinks:
  "list_ex (\<lambda>d. index (snd d) = i) devs \<Longrightarrow>
     length (filter (\<lambda>d. i + 1 \<le> index (snd d)) devs)
       < length (filter (\<lambda>d. i \<le> index (snd d)) (devs :: devices_t))"
proof (induction devs)
  case Nil
  then show ?case by simp
next
  case (Cons d devs)
  have le: "length (filter (\<lambda>d. i + 1 \<le> index (snd d)) devs)
              \<le> length (filter (\<lambda>d. i \<le> index (snd d)) devs)"
    by (induction devs) auto
  show ?case
  proof (cases "index (snd d) = i")
    case True
    with le show ?thesis by simp
  next
    case False
    with Cons show ?thesis by simp
  qed
qed

lemma none_of_iff:
  "none_of (\<lambda>d. index (snd d) = i) devs \<longleftrightarrow> i \<notin> set (map (\<lambda>d. index (snd d)) devs)"
  by (auto simp: none_of_def list_ex_iff)

lemma FindFirstOpenIndex_from_ge: "i \<le> FindFirstOpenIndex_from i devs"
proof (induction i devs rule: FindFirstOpenIndex_from.induct)
  case (1 i devs)
  show ?case
  proof (cases "none_of (\<lambda>d. index (snd d) = i) devs")
    case True
    then show ?thesis by (simp add: FindFirstOpenIndex_from.simps [of i devs])
  next
    case False
    with 1 show ?thesis by (simp add: FindFirstOpenIndex_from.simps [of i devs])
  qed
qed

lemma FindFirstOpenIndex_from_free:
  "FindFirstOpenIndex_from i devs \<notin> set (map (\<lambda>d. index (snd d)) devs)"
proof (induction i devs rule: FindFirstOpenIndex_from.induct)
  case (1 i devs)
  show ?case
  proof (cases "none_of (\<lambda>d. index (snd d) = i) devs")
    case True
    then show ?thesis
      by (simp add: FindFirstOpenIndex_from.simps [of i devs] none_of_iff)
  next
    case False
    with 1 show ?thesis by (simp add: FindFirstOpenIndex_from.simps [of i devs])
  qed
qed

lemma FindFirstOpenIndex_from_below:
  "i \<le> j \<Longrightarrow> j < FindFirstOpenIndex_from i devs \<Longrightarrow> j \<in> set (map (\<lambda>d. index (snd d)) devs)"
proof (induction i devs rule: FindFirstOpenIndex_from.induct)
  case (1 i devs)
  show ?case
  proof (cases "none_of (\<lambda>d. index (snd d) = i) devs")
    case True
    with "1.prems" show ?thesis
      by (simp add: FindFirstOpenIndex_from.simps [of i devs])
  next
    case False
    then have eq: "FindFirstOpenIndex_from i devs = FindFirstOpenIndex_from (i + 1) devs"
      by (simp add: FindFirstOpenIndex_from.simps [of i devs])
    show ?thesis
    proof (cases "j = i")
      case True
      with False show ?thesis by (simp add: none_of_iff)
    next
      case False
      with "1.prems" have "i + 1 \<le> j" by simp
      with 1 \<open>\<not> none_of _ devs\<close> eq show ?thesis by simp
    qed
  qed
qed

lemma FindFirstOpenIndex_from_bounds:
  "FindFirstOpenIndex_from i devs \<le> i + int (length (filter (\<lambda>d. i \<le> index (snd d)) devs))"
proof (induction i devs rule: FindFirstOpenIndex_from.induct)
  case (1 i devs)
  show ?case
  proof (cases "none_of (\<lambda>d. index (snd d) = i) devs")
    case True
    then show ?thesis by (simp add: FindFirstOpenIndex_from.simps [of i devs])
  next
    case False
    then have eq: "FindFirstOpenIndex_from i devs = FindFirstOpenIndex_from (i + 1) devs"
      by (simp add: FindFirstOpenIndex_from.simps [of i devs])
    from False have "list_ex (\<lambda>d. index (snd d) = i) devs" by (simp add: none_of_def)
    from claimed_shrinks [OF this] 1 [OF False] eq show ?thesis by simp
  qed
qed

text \<open>
  C10. \<open>FindFirstOpenIndex\<close> is a total function: its loop was accepted with the
  termination proof above, whose measure is the number of entries claiming a slot at or
  above the counter. For a registry of \<open>n\<close> entries the value returned is at least 0
  and at most \<open>n\<close>.
\<close>

theorem FindFirstOpenIndex_terminates_bounded:
  "0 \<le> FindFirstOpenIndex mgr \<and> FindFirstOpenIndex mgr \<le> int (length (devices mgr))"
proof -
  have "int (length (filter (\<lambda>d. 0 \<le> index (snd d)) (devices mgr))) \<le> int (length (devices mgr))"
    by simp
  with FindFirstOpenIndex_from_bounds [of 0 "devices mgr"]
       FindFirstOpenIndex_from_ge [of 0 "devices mgr"]
  show ?thesis unfolding FindFirstOpenIndex_def by linarith
qed

lemma map_find_None: "map_find k m = None \<longleftrightarrow> k \<notin> fst ` set m"
  unfolding map_find_def by (rule map_of_eq_None_iff)

lemma map_of_insort:
  "k \<notin> fst ` set m \<Longrightarrow> map_of (insort_key fst (k, v) m) k = Some v"
  by (induction m) auto

lemma map_find_insert:
  assumes "map_find k m = None"
  shows "map_find k (map_insert (k, v) m) = Some v"
proof -
  from assms have "k \<notin> fst ` set m" using map_find_None [of k m] by blast
  then show ?thesis by (simp add: map_insert_def map_find_def map_of_insort)
qed

lemma distinct_map_insort:
  "distinct (map g (insort_key f x xs)) \<longleftrightarrow> g x \<notin> g ` set xs \<and> distinct (map g xs)"
  by (induction xs) (auto simp: set_insort_key)

lemma slots_AddDevice:
  "distinct (slots mgr) \<Longrightarrow> distinct (slots (AddDevice sdl n mgr))"
proof -
  assume d: "distinct (slots mgr)"
  have free: "FindFirstOpenIndex mgr \<notin> (\<lambda>d. index (snd d)) ` set (devices mgr)"
    using FindFirstOpenIndex_from_free [of 0 "devices mgr"] by (simp add: FindFirstOpenIndex_def)
  show ?thesis
  proof (cases "SDLInputDevice_open sdl n SDLInputDevice_init")
    case None
    with d show ?thesis by (simp add: AddDevice_def)
  next
    case (Some dev)
    with d free show ?thesis
      by (simp add: AddDevice_def slots_def map_insert_def distinct_map_insort Let_def)
  qed
qed

lemma slots_RemoveDevice:
  "distinct (slots mgr) \<Longrightarrow> distinct (slots (RemoveDevice iid mgr))"
  by (cases "map_find iid (devices mgr)")
     (simp_all add: RemoveDevice_def slots_def map_erase_def log_def distinct_map_filter)

text \<open>
  C4. Starting from a registry without devices, after any sequence of \<open>AddDevice\<close> and
  \<open>RemoveDevice\<close> calls, whatever SDL answers to each open, the slot indices of the
  devices in the registry are pairwise distinct. Every prefix of a sequence is such a
  sequence, so this holds at every point.
\<close>

theorem slots_distinct_invariant:
  assumes "devices mgr = []"
  shows "distinct (slots (foldl apply_op mgr ops))"
proof -
  have "distinct (slots m) \<Longrightarrow> distinct (slots (foldl apply_op m ops))" for m
  proof (induction ops arbitrary: m)
    case Nil
    then show ?case by simp
  next
    case (Cons op ops)
    have "distinct (slots (apply_op m op))"
      using Cons.prems by (cases op) (simp_all add: slots_AddDevice slots_RemoveDevice)
    then show ?case using Cons.IH by simp
  qed
  moreover have "distinct (slots mgr)" using assms by (simp add: slots_def)
  ultimately show ?thesis .
qed

text \<open>
  C6. When the underlying open call fails (for a game controller
  \<open>SDL_GameControllerOpen\<close> or the joystick of the controller is null, for a plain
  joystick \<open>SDL_JoystickOpen\<close> is null), \<open>SDLInputDevice::open\<close> returns
  \<open>false\<close> and \<open>AddDevice\<close> returns with the manager exactly as it was: no entry
  is inserted and the next free slot is the same.
\<close>

theorem AddDevice_open_failure_atomic:
  assumes "if SDL_IsGameController (sdl n)
           then SDL_GameControllerOpen (sdl n) = None \<or> SDL_GameControllerGetJoystick (sdl n) = None
           else SDL_JoystickOpen (sdl n) = None"
  shows "SDLInputDevice_open sdl n d = None \<and> AddDevice sdl n mgr = mgr
         \<and> FindFirstOpenIndex (AddDevice sdl n mgr) = FindFirstOpenIndex mgr"
proof -
  have "SDLInputDevice_open sdl n d = None" for d
    using assms by (auto simp: SDLInputDevice_open_def Let_def split: option.splits if_splits)
  then show ?thesis by (simp add: AddDevice_def)
qed


lemma open_instance_id:
  "SDLInputDevice_open sdl n d0 = Some d \<Longrightarrow> instance_id d = SDL_JoystickInstanceID (sdl n)"
  by (auto simp: SDLInputDevice_open_def Let_def split: option.splits)

lemma FindFirstOpenIndex_least:
  assumes "0 \<le> k" and "k \<notin> set (slots mgr)"
  shows "FindFirstOpenIndex mgr \<le> k"
proof (rule ccontr)
  assume "\<not> FindFirstOpenIndex mgr \<le> k"
  then have "k < FindFirstOpenIndex_from 0 (devices mgr)"
    by (simp add: FindFirstOpenIndex_def)
  from FindFirstOpenIndex_from_below [OF assms(1) this] assms(2) show False
    by (simp add: slots_def)
qed

lemma slot_freed:
  assumes f: "map_find iid (devices mgr) = Some dev" and d: "distinct (slots mgr)"
  shows "index dev \<notin> set (slots (RemoveDevice iid mgr))"
proof -
  from f have mem: "(iid, dev) \<in> set (devices mgr)"
    by (simp add: map_find_def map_of_SomeD)
  have other: "index (snd kv) \<noteq> index dev" if "kv \<in> set (devices mgr)" "fst kv \<noteq> iid" for kv
  proof
    assume e: "index (snd kv) = index dev"
    from d have "inj_on (\<lambda>d. index (snd d)) (set (devices mgr))"
      by (simp add: slots_def distinct_map)
    from inj_onD [OF this _ that(1) mem] e have "kv = (iid, dev)" by simp
    with that(2) show False by simp
  qed
  have slots_eq: "slots (RemoveDevice iid mgr)
                   = map (\<lambda>d. index (snd d)) (filter (\<lambda>kv. fst kv \<noteq> iid) (devices mgr))"
    using f by (simp add: RemoveDevice_def slots_def map_erase_def log_def)
  show ?thesis
  proof
    assume "index dev \<in> set (slots (RemoveDevice iid mgr))"
    then obtain kv where "kv \<in> set (devices mgr)" "fst kv \<noteq> iid" "index (snd kv) = index dev"
      unfolding slots_eq by auto
    with other show False by blast
  qed
qed

text \<open>
  C3. \<open>FindFirstOpenIndex\<close> returns the smallest non-negative integer that is the slot
  of no device in the registry: it is non-negative, no device has it, and every smaller
  non-negative integer is some device's slot. When \<open>open\<close> succeeds for a device whose
  instance id is not in the registry, \<open>AddDevice\<close> registers it with that slot. After
  the removal of a device with slot \<open>k\<close> from a registry with distinct slots, the next
  free slot is at most \<open>k\<close>: the freed slot is reused before any higher one.
\<close>

theorem FindFirstOpenIndex_smallest_free_slot:
  "0 \<le> FindFirstOpenIndex mgr
   \<and> FindFirstOpenIndex mgr \<notin> set (slots mgr)
   \<and> (\<forall>j. 0 \<le> j \<and> j < FindFirstOpenIndex mgr \<longrightarrow> j \<in> set (slots mgr))
   \<and> (SDLInputDevice_open sdl n SDLInputDevice_init \<noteq> None
        \<and> slot_of (SDL_JoystickInstanceID (sdl n)) mgr = None
      \<longrightarrow> slot_of (SDL_JoystickInstanceID (sdl n)) (AddDevice sdl n mgr)
            = Some (FindFirstOpenIndex mgr))
   \<and> (slot_of iid mgr = Some k \<and> distinct (slots mgr) \<and> 0 \<le> k
      \<longrightarrow> FindFirstOpenIndex (RemoveDevice iid mgr) \<le> k)"
proof (intro conjI allI impI)
  show "0 \<le> FindFirstOpenIndex mgr"
    using FindFirstOpenIndex_from_ge [of 0 "devices mgr"] by (simp add: FindFirstOpenIndex_def)
  show "FindFirstOpenIndex mgr \<notin> set (slots mgr)"
    using FindFirstOpenIndex_from_free [of 0 "devices mgr"]
    by (simp add: FindFirstOpenIndex_def slots_def)
next
  fix j assume "0 \<le> j \<and> j < FindFirstOpenIndex mgr"
  then show "j \<in> set (slots mgr)"
    using FindFirstOpenIndex_from_below [of 0 j "devices mgr"]
    by (simp add: FindFirstOpenIndex_def slots_def)
next
  assume a: "SDLInputDevice_open sdl n SDLInputDevice_init \<noteq> None
        \<and> slot_of (SDL_JoystickInstanceID (sdl n)) mgr = None"
  then obtain d where d: "SDLInputDevice_open sdl n SDLInputDevice_init = Some d" by auto
  from a have "map_find (instance_id d) (devices mgr) = None"
    by (simp add: slot_of_def open_instance_id [OF d])
  from map_find_insert [OF this] d
  show "slot_of (SDL_JoystickInstanceID (sdl n)) (AddDevice sdl n mgr)
            = Some (FindFirstOpenIndex mgr)"
    by (simp add: slot_of_def AddDevice_def Let_def open_instance_id [OF d])
next
  assume a: "slot_of iid mgr = Some k \<and> distinct (slots mgr) \<and> 0 \<le> k"
  then obtain dev where dev: "map_find iid (devices mgr) = Some dev" "index dev = k"
    by (auto simp: slot_of_def)
  with a have "k \<notin> set (slots (RemoveDevice iid mgr))"
    using slot_freed [of iid mgr dev] by simp
  with a show "FindFirstOpenIndex (RemoveDevice iid mgr) \<le> k"
    by (simp add: FindFirstOpenIndex_least)
qed


lemmas scenario_defs = after_A_def after_B_def after_detach_A_def after_C_def
  AddDevice_def RemoveDevice_def SDLInputDevice_open_def SDLInputDevice_init_def stick_def
  no_devices_def map_insert_def map_erase_def map_find_def slot_of_def slots_def
  FindFirstOpenIndex_def FindFirstOpenIndex_from.simps none_of_def log_def Let_def

text \<open>
  The scenario of the specification: A gets slot 0, B gets slot 1, B keeps slot 1 when A
  is detached, and C gets slot 0.
\<close>

theorem FindFirstOpenIndex_smallest_free_slot_witness:
  "slot_of 10 after_A = Some 0 \<and> slot_of 11 after_B = Some 1
   \<and> slot_of 11 after_detach_A = Some 1 \<and> slot_of 12 after_C = Some 0"
proof -
  have h_rm: "slot_of 10 after_B = Some 0 \<and> distinct (slots after_B) \<and> (0 :: int) \<le> 0"
    by (simp add: scenario_defs)
  have h_add: "SDLInputDevice_open (\<lambda>i. stick 3 12) 0 SDLInputDevice_init \<noteq> None
               \<and> slot_of (SDL_JoystickInstanceID ((\<lambda>i. stick 3 12) (0 :: int))) after_detach_A = None"
    by (simp add: scenario_defs)
  have "FindFirstOpenIndex after_detach_A \<le> 0"
    using FindFirstOpenIndex_smallest_free_slot [of after_B _ _ 10 0] h_rm
    by (simp only: after_detach_A_def [symmetric])
  moreover have "0 \<le> FindFirstOpenIndex after_detach_A"
    using FindFirstOpenIndex_smallest_free_slot [of after_detach_A] by blast
  ultimately have free: "FindFirstOpenIndex after_detach_A = 0" by simp
  have "slot_of (SDL_JoystickInstanceID ((\<lambda>i. stick 3 12) (0 :: int)))
          (AddDevice (\<lambda>i. stick 3 12) 0 after_detach_A)
        = Some (FindFirstOpenIndex after_detach_A)"
    using FindFirstOpenIndex_smallest_free_slot [of after_detach_A "\<lambda>i. stick 3 12" 0] h_add
    by blast
  then have c: "slot_of 12 after_C = Some 0"
    by (simp add: free after_C_def stick_def)
  have "slot_of 10 after_A = Some 0 \<and> slot_of 11 after_B = Some 1
        \<and> slot_of 11 after_detach_A = Some 1"
    by (simp add: scenario_defs)
  with c show ?thesis by simp
qed

theorem slots_distinct_invariant_witness:
  "devices no_devices = []
   \<and> distinct (slots (foldl apply_op no_devices
        [Attach (\<lambda>i. stick 1 10) 0, Attach (\<lambda>i. stick 2 11) 1, Detach 10,
         Attach (\<lambda>i. stick 3 12) 0]))"
proof -
  have e: "devices no_devices = []" by (simp add: no_devices_def)
  from slots_distinct_invariant [OF e] e show ?thesis by blast
qed

theorem AddDevice_open_failure_atomic_witness:
  "SDLInputDevice_open (\<lambda>i. unplugged) 0 SDLInputDevice_init = None
   \<and> AddDevice (\<lambda>i. unplugged) 0 one_pad = one_pad
   \<and> FindFirstOpenIndex (AddDevice (\<lambda>i. unplugged) 0 one_pad) = FindFirstOpenIndex one_pad"
proof -
  have f: "if SDL_IsGameController ((\<lambda>i. unplugged) (0 :: int))
           then SDL_GameControllerOpen ((\<lambda>i. unplugged) (0 :: int)) = None
                \<or> SDL_GameControllerGetJoystick ((\<lambda>i. unplugged) (0 :: int)) = None
           else SDL_JoystickOpen ((\<lambda>i. unplugged) (0 :: int)) = None"
    by (simp add: unplugged_def)
  from AddDevice_open_failure_atomic [OF f] show ?thesis by blast
qed

theorem FindFirstOpenIndex_terminates_bounded_witness:
  "0 \<le> FindFirstOpenIndex one_pad \<and> FindFirstOpenIndex one_pad \<le> 1
   \<and> FindFirstOpenIndex one_pad = 1"
proof -
  have l: "int (length (devices one_pad)) = 1"
    by (simp add: one_pad_def no_devices_def)
  have v: "FindFirstOpenIndex one_pad = 1"
    by (simp add: FindFirstOpenIndex_def FindFirstOpenIndex_from.simps none_of_def
          one_pad_def no_devices_def pad_def)
  from FindFirstOpenIndex_terminates_bounded [of one_pad] l v show ?thesis by simp
qed

section \<open>Unknown instance ids\<close>

text \<open>
  C5, as the code has it. For an instance id that is not in the registry,
  \<open>RemoveDevice\<close> returns with the manager unchanged and without a close call. Hat and
  axis discretization for such an id do not change the registry either and produce no
  event, but they are not silent: \<open>devices.at\<close> throws \<open>std::out_of_range\<close> before
  anything is read or written.
\<close>

theorem unknown_instance_remove_noop_discretize_throws:
  assumes "map_find iid (devices mgr) = None"
  shows "RemoveDevice iid mgr = mgr
       \<and> DiscretizeHatEvent iid h v mgr = Inl OutOfRange
       \<and> DiscretizeJoyAxisEvent iid a now mgr = Inl OutOfRange"
  using assms
  by (simp add: RemoveDevice_def DiscretizeHatEvent_def DiscretizeJoyAxisEvent_def map_at_def)

theorem unknown_instance_remove_noop_discretize_throws_witness:
  "map_find 9 (devices one_pad) = None \<and> RemoveDevice 9 one_pad = one_pad
       \<and> DiscretizeHatEvent 9 0 1 one_pad = Inl OutOfRange
       \<and> DiscretizeJoyAxisEvent 9 0 20000 one_pad = Inl OutOfRange"
proof -
  have n: "map_find 9 (devices one_pad) = None"
    by (simp add: map_find_def one_pad_def no_devices_def)
  from unknown_instance_remove_noop_discretize_throws [OF n] n show ?thesis by blast
qed

text \<open>
  Against C5 as stated: with only instance 7 registered, a hat sample and an axis sample
  for instance 9 both end in the exception.
\<close>

theorem unknown_instance_discretize_counterexample:
  "map_find 9 (devices one_pad) = None
   \<and> DiscretizeHatEvent 9 0 1 one_pad = Inl OutOfRange
   \<and> DiscretizeJoyAxisEvent 9 0 20000 one_pad = Inl OutOfRange"
  by (simp add: DiscretizeHatEvent_def DiscretizeJoyAxisEvent_def map_at_def map_find_def
        one_pad_def no_devices_def)

section \<open>The worker loop: results\<close>

lemmas run_defs = run_def run_entry_def run_iteration_def wait_step_def rumble_all_def
  emit_def log_def rumble_def Let_def wait_result_def rumbling_pad_def one_pad_def no_devices_def

text \<open>
  The button branch looks the slot up with \<open>devices[e.jbutton.which]\<close>: a button event
  for instance 9, which is not registered, inserts a value-initialised device under that
  id and forwards the event with slot 0, the slot instance 7 already has.
\<close>

lemma button_event_unknown_instance:
  "devices (this (run [wait_result 0 (Some (SDL_JOYBUTTONDOWN 9)) 0] one_pad))
     = [(7, pad), (9, SDLInputDevice_init)]
   \<and> calls (this (run [wait_result 0 (Some (SDL_JOYBUTTONDOWN 9)) 0] one_pad))
     = [SDL_Init, SDL_WaitEvent, emit_event (SDL_JOYBUTTONDOWN 9) 0]
   \<and> slots (this (run [wait_result 0 (Some (SDL_JOYBUTTONDOWN 9)) 0] one_pad)) = [0, 0]"
  by (simp add: run_defs map_subscript_def map_find_def map_insert_def slots_def pad_def
        SDLInputDevice_init_def)

text \<open>
  While a deadline is pending, an event that is not the rumble request leaves the
  deadline as it is, and no rumble call is made in that iteration by the wait.
\<close>

lemma event_keeps_deadline:
  assumes "l_rumble_end f = Some t" and "received inp = Some ev"
  shows "wait_step inp f
           = f\<lparr> this := log (SDL_WaitEventTimeout (max (sint (t - ticks_wait inp)) 0)) (this f),
                l_e := ev \<rparr>"
  using assms by (simp add: wait_step_def Let_def)

text \<open>
  When the wait times out, the deadline is cleared and one stop call per registry entry
  is made, with the entry's \<open>controller\<close> pointer, which is null for a plain joystick.
\<close>

lemma timeout_stops_every_entry:
  assumes "l_rumble_end f = Some t" and "received inp = None"
  shows "l_rumble_end (wait_step inp f) = None
       \<and> calls (this (wait_step inp f))
           = calls (this f) @ [SDL_WaitEventTimeout (max (sint (t - ticks_wait inp)) 0)]
               @ map (\<lambda>kv. SDL_GameControllerRumble (controller (snd kv)) 0 0 0)
                     (devices (this f))
       \<and> l_e (wait_step inp f) = l_e f"
  using assms by (simp add: wait_step_def Let_def rumble_all_def log_def)

text \<open>
  After the timeout the switch still runs, on the event of the iteration before. When
  that event is the rumble request, the deadline is set again.
\<close>

lemma stale_event_after_timeout:
  assumes "l_rumble_end f = Some t" and "l_e f = SDL_OTHEREVENT (rumble_event_id (this f))"
    and "rumble_event_id (this f) \<noteq> work_event_id (this f)"
    and "received inp = None"
  shows "l_rumble_end (run_iteration inp f)
           = Some (ticks_rumble inp + snd (snd (rumble_data (this f))))"
  using assms
  by (simp add: run_iteration_def wait_step_def Let_def rumble_all_def log_def split: prod.splits)

text \<open>
  C7, at the scenario of the specification: a rumble of 50 ms is requested on the one
  open controller at tick 1000 and no further event arrives. The first timeout issues the
  stop call once, and the same iteration then handles the rumble request again: the
  rumble is started anew and the deadline is 1100, not cleared. The second timeout does
  the same, so the stop call has been issued twice and a deadline is pending still.
\<close>

theorem rumble_timeout_rearms_deadline:
  "l_rumble_end (run [wait_result 0 (Some (SDL_OTHEREVENT 0x8001)) 1000,
                      wait_result 1000 None 1050] rumbling_pad) = Some 1100
   \<and> calls (this (run [wait_result 0 (Some (SDL_OTHEREVENT 0x8001)) 1000,
                        wait_result 1000 None 1050, wait_result 1050 None 1100] rumbling_pad))
       = [SDL_Init, SDL_WaitEvent, SDL_GameControllerRumble (Some 1) 100 200 50,
          SDL_WaitEventTimeout 50, SDL_GameControllerRumble (Some 1) 0 0 0,
          SDL_GameControllerRumble (Some 1) 100 200 50,
          SDL_WaitEventTimeout 50, SDL_GameControllerRumble (Some 1) 0 0 0,
          SDL_GameControllerRumble (Some 1) 100 200 50]
   \<and> l_rumble_end (run [wait_result 0 (Some (SDL_OTHEREVENT 0x8001)) 1000,
                        wait_result 1000 None 1050, wait_result 1050 None 1100] rumbling_pad)
       = Some 1150"
  by (simp add: run_defs pad_def)

lemma run_loop_stopped: "\<not> l_run f \<Longrightarrow> run_loop inps f = f"
  by (cases inps) simp_all

lemma run_loop_append: "run_loop (xs @ ys) f = run_loop ys (run_loop xs f)"
  by (induction xs arbitrary: f) (simp_all add: run_loop_stopped)

lemma quit_iteration:
  assumes "received inp = Some SDL_QUIT"
  shows "run_iteration inp f
           = f\<lparr> this := log (wait_call inp f) (this f), l_e := SDL_QUIT, l_run := False \<rparr>"
  using assms
  by (cases "l_rumble_end f") (simp_all add: run_iteration_def wait_step_def wait_call_def Let_def)

text \<open>
  C8, as the code has it. When the worker, still running after the inputs \<open>pre\<close>,
  receives \<open>SDL_QUIT\<close>, it leaves the loop: the registry keeps the devices it had, the
  only calls made are the wait that delivered the signal and then \<open>SDL_Quit()\<close>, once,
  after the loop; no device is closed by a call of its own. Whatever arrives after the
  signal, a second \<open>SDL_QUIT\<close> included, changes nothing.
\<close>

theorem shutdown_quits_without_closing:
  assumes g: "g = run_loop pre (run_entry mgr)" and r: "l_run g"
    and q: "received inp = Some SDL_QUIT"
  shows "run (pre @ inp # rest) mgr = run (pre @ [inp]) mgr
       \<and> \<not> l_run (run (pre @ inp # rest) mgr)
       \<and> devices (this (run (pre @ inp # rest) mgr)) = devices (this g)
       \<and> calls (this (run (pre @ inp # rest) mgr)) = calls (this g) @ [wait_call inp g, SDL_Quit]"
proof -
  let ?h = "g\<lparr> this := log (wait_call inp g) (this g), l_e := SDL_QUIT, l_run := False \<rparr>"
  have a: "run_loop (pre @ inp # rest) (run_entry mgr) = ?h"
    using r by (simp add: run_loop_append g [symmetric] quit_iteration [OF q] run_loop_stopped)
  have b: "run_loop (pre @ [inp]) (run_entry mgr) = ?h"
    using r by (simp add: run_loop_append g [symmetric] quit_iteration [OF q])
  show ?thesis
    by (simp add: run_def a b log_def)
qed

theorem shutdown_quits_without_closing_witness:
  "run [wait_result 0 (Some SDL_QUIT) 0, wait_result 5 (Some SDL_QUIT) 5] one_pad
     = run [wait_result 0 (Some SDL_QUIT) 0] one_pad
   \<and> \<not> l_run (run [wait_result 0 (Some SDL_QUIT) 0, wait_result 5 (Some SDL_QUIT) 5] one_pad)
   \<and> devices (this (run [wait_result 0 (Some SDL_QUIT) 0, wait_result 5 (Some SDL_QUIT) 5]
                      one_pad))
       = [(7, pad)]
   \<and> calls (this (run [wait_result 0 (Some SDL_QUIT) 0, wait_result 5 (Some SDL_QUIT) 5]
                    one_pad))
       = [SDL_Init, SDL_WaitEvent, SDL_Quit]"
proof -
  have r: "l_run (run_loop [] (run_entry one_pad))" by (simp add: run_entry_def)
  have q: "received (wait_result 0 (Some SDL_QUIT) 0) = Some SDL_QUIT"
    by (simp add: wait_result_def)
  have e: "devices (this (run_loop [] (run_entry one_pad))) = [(7, pad)]"
    "calls (this (run_loop [] (run_entry one_pad)))
       @ [wait_call (wait_result 0 (Some SDL_QUIT) 0) (run_loop [] (run_entry one_pad)), SDL_Quit]
     = [SDL_Init, SDL_WaitEvent, SDL_Quit]"
    by (simp_all add: run_entry_def wait_call_def log_def one_pad_def no_devices_def)
  from shutdown_quits_without_closing [OF refl r q, of "[wait_result 5 (Some SDL_QUIT) 5]"]
  show ?thesis
    unfolding e append_Nil by blast
qed

text \<open>
  Against C8 as stated: the controller with handle 1 is open when \<open>SDL_QUIT\<close> arrives;
  the worker leaves the loop and \<open>SDL_GameControllerClose\<close> was never called for it.
\<close>

theorem shutdown_closes_devices_counterexample:
  "map_find 7 (devices one_pad) = Some pad \<and> is_controller pad \<and> controller pad = Some 1
   \<and> SDL_GameControllerClose (Some 1)
        \<notin> set (calls (this (run [wait_result 0 (Some SDL_QUIT) 0] one_pad)))
   \<and> \<not> l_run (run [wait_result 0 (Some SDL_QUIT) 0] one_pad)"
  by (simp add: run_defs pad_def map_find_def)

end
